theory Spec2Isabelle
  imports Main
begin

section \<open>Python values\<close>

text \<open>
  A Python \<^verbatim>\<open>str\<close> is a sequence of Unicode code points, and \<^verbatim>\<open>len\<close>, slicing and
  \<^verbatim>\<open>re.sub\<close> count code points. A string is therefore a list of code points; \<open>ustr\<close>
  turns an ASCII literal into one.
\<close>

type_synonym pystr = "nat list"

definition ustr :: "string \<Rightarrow> pystr" where
  "ustr s = map of_char s"

definition in_range :: "char \<Rightarrow> char \<Rightarrow> nat \<Rightarrow> bool" where
  "in_range lo hi c = (of_char lo \<le> c \<and> c \<le> of_char hi)"

text \<open>The exceptions that the modelled code can meet.\<close>

datatype py_error =
  OSError | UnicodeDecodeError | JSONDecodeError | RecursionError | KeyError
  | AttributeError | TypeError

text \<open>
  How a call ends: it returns a value, it raises, or it ends the process through
  \<^verbatim>\<open>sys.exit(n)\<close>.
\<close>

datatype 'a outcome = Returned 'a | Raised py_error | Exited int


section \<open>String methods\<close>

text \<open>\<^verbatim>\<open>s.rstrip(chars)\<close>, \<^verbatim>\<open>s.lstrip(chars)\<close>, \<^verbatim>\<open>s.strip(chars)\<close>: the argument is a set of
  characters, every leading or trailing character belonging to it is removed.\<close>

definition rstrip :: "pystr \<Rightarrow> pystr \<Rightarrow> pystr" where
  "rstrip chars s = rev (dropWhile (\<lambda>c. c \<in> set chars) (rev s))"

definition lstrip :: "pystr \<Rightarrow> pystr \<Rightarrow> pystr" where
  "lstrip chars s = dropWhile (\<lambda>c. c \<in> set chars) s"

definition strip :: "pystr \<Rightarrow> pystr \<Rightarrow> pystr" where
  "strip chars s = rstrip chars (lstrip chars s)"

definition startswith :: "pystr \<Rightarrow> pystr \<Rightarrow> bool" where
  "startswith s p = (take (length p) s = p)"

text \<open>
  \<^verbatim>\<open>s.split(sep)\<close> scans from the left and cuts at every occurrence of \<open>sep\<close> that does not
  overlap an earlier one. \<open>split_from sep cur rest\<close> is the scan with the piece \<open>cur\<close> open.
  Both separators of the program are non-empty literals (Python raises on an empty one).
\<close>

fun split_from :: "pystr \<Rightarrow> pystr \<Rightarrow> pystr \<Rightarrow> pystr list" where
  "split_from sep cur [] = [cur]"
| "split_from sep cur (c # cs) =
     (if startswith (c # cs) sep
      then cur # split_from sep [] (drop (length sep - 1) cs)
      else split_from sep (cur @ [c]) cs)"

definition split :: "pystr \<Rightarrow> pystr \<Rightarrow> pystr list" where
  "split sep s = split_from sep [] s"

text \<open>
  \<^verbatim>\<open>s.lower()\<close>. The program lowers a string only after every character outside
  \<^verbatim>\<open>[a-zA-Z0-9._-]\<close> has been replaced, so only the ASCII letters are ever changed.
\<close>

definition lower_char :: "nat \<Rightarrow> nat" where
  "lower_char c = (if in_range CHR ''A'' CHR ''Z'' c then c + 32 else c)"

definition lower :: "pystr \<Rightarrow> pystr" where
  "lower s = map lower_char s"

text \<open>
  \<^verbatim>\<open>s.splitlines()\<close>: a line ends at \<^verbatim>\<open>\n\<close>, \<^verbatim>\<open>\r\<close>, \<^verbatim>\<open>\r\n\<close>, \<^verbatim>\<open>\v\<close>, \<^verbatim>\<open>\f\<close>, \<^verbatim>\<open>\x1c\<close>, \<^verbatim>\<open>\x1d\<close>,
  \<^verbatim>\<open>\x1e\<close>, \<^verbatim>\<open>\x85\<close>, U+2028 or U+2029; the line ends are dropped and there is no empty
  line after a final line end.
\<close>

definition is_linebreak :: "nat \<Rightarrow> bool" where
  "is_linebreak c = (c \<in> {10, 11, 12, 13, 28, 29, 30, 133, 8232, 8233})"

fun lines_from :: "pystr \<Rightarrow> pystr \<Rightarrow> pystr list" where
  "lines_from cur [] = (if cur = [] then [] else [cur])"
| "lines_from cur (c # cs) =
     (if is_linebreak c
      then cur # lines_from [] (if c = 13 \<and> take 1 cs = [10] then drop 1 cs else cs)
      else lines_from (cur @ [c]) cs)"

definition splitlines :: "pystr \<Rightarrow> pystr list" where
  "splitlines s = lines_from [] s"

text \<open>\<^verbatim>\<open>\s\<close> in a \<^verbatim>\<open>str\<close> pattern: the Unicode whitespace characters.\<close>

definition is_space :: "nat \<Rightarrow> bool" where
  "is_space c =
     ((9 \<le> c \<and> c \<le> 13) \<or> (28 \<le> c \<and> c \<le> 32) \<or> c = 133 \<or> c = 160 \<or> c = 5760
      \<or> (8192 \<le> c \<and> c \<le> 8202) \<or> c = 8232 \<or> c = 8233 \<or> c = 8239 \<or> c = 8287
      \<or> c = 12288)"

text \<open>\<^verbatim>\<open>os.path.join(a, b)\<close> on POSIX.\<close>

definition path_join :: "pystr \<Rightarrow> pystr \<Rightarrow> pystr" where
  "path_join a b =
     (if startswith b (ustr ''/'') then b
      else if a = [] \<or> last a = of_char CHR ''/'' then a @ b
      else a @ ustr ''/'' @ b)"


section \<open>replicator.py: the image tag\<close>

text \<open>\<^verbatim>\<open>re.sub(r"[^a-zA-Z0-9._-]", "-", name)\<close>\<close>

definition slug_char :: "nat \<Rightarrow> bool" where
  "slug_char c =
     (in_range CHR ''a'' CHR ''z'' c \<or> in_range CHR ''A'' CHR ''Z'' c
      \<or> in_range CHR ''0'' CHR ''9'' c \<or> c \<in> set (ustr ''._-''))"

definition re_sub :: "pystr \<Rightarrow> pystr" where
  "re_sub name = map (\<lambda>c. if slug_char c then c else of_char CHR ''-'') name"

definition slugify :: "pystr \<Rightarrow> pystr" where
  "slugify url =
     (let name = last (split (ustr ''github.com/'')
                   (rstrip (ustr ''.git'') (rstrip (ustr ''/'') url)));
          name = strip (ustr ''-'') (lower (re_sub name))
      in take 128 (ustr ''devreplicator-'' @ name))"


section \<open>executor.py: cloning\<close>

text \<open>\<^verbatim>\<open>url.split("/")[-1] or "repo"\<close>\<close>

definition extract_repo_name :: "pystr \<Rightarrow> pystr" where
  "extract_repo_name url =
     (let url = rstrip (ustr ''.git'') (rstrip (ustr ''/'') url);
          name = last (split (ustr ''/'') url)
      in if name = [] then ustr ''repo'' else name)"

text \<open>
  The log functions of utils.py print one line each; \<open>log_error\<close> prints to the error
  stream. The model keeps the lines, with their level, in the order they are printed.
\<close>

datatype level = INFO | SUCCESS | WARN | ERROR

type_synonym log = "(level \<times> pystr) list"

text \<open>
  What \<open>clone_repository\<close> sees of the machine: whether \<^verbatim>\<open>shutil.which("git")\<close> finds
  git, the temporary directory, which paths exist, whether \<^verbatim>\<open>shutil.rmtree\<close> raises, and
  what \<^verbatim>\<open>subprocess.run\<close> of \<^verbatim>\<open>git clone --depth=1 url dest\<close> gives: the exit status of
  git, or an exception when the process cannot be started.
\<close>

record machine =
  which_git :: bool
  gettempdir :: pystr
  exists_path :: "pystr \<Rightarrow> bool"
  rmtree :: "pystr \<Rightarrow> py_error option"
  git_clone :: "pystr \<Rightarrow> pystr \<Rightarrow> py_error + int"

definition check_git :: "machine \<Rightarrow> log \<times> unit outcome" where
  "check_git m =
     (if \<not> which_git m
      then ([(ERROR, ustr ''git is not installed or not found in PATH.'')], Exited 1)
      else ([], Returned ()))"

definition clone_dest :: "machine \<Rightarrow> pystr \<Rightarrow> pystr option \<Rightarrow> pystr" where
  "clone_dest m url dest =
     (case dest of
        None \<Rightarrow> path_join (gettempdir m) (ustr ''devreplicator_'' @ extract_repo_name url)
      | Some d \<Rightarrow> d)"

definition run_clone :: "machine \<Rightarrow> pystr \<Rightarrow> pystr \<Rightarrow> log \<Rightarrow> log \<times> pystr outcome" where
  "run_clone m url dest lg =
     (let lg = lg @ [(INFO, ustr ''Cloning '' @ url @ ustr '' '' @ [8594] @ ustr '' '' @ dest)]
      in case git_clone m url dest of
           Inl e \<Rightarrow> (lg, Raised e)
         | Inr returncode \<Rightarrow>
             if returncode \<noteq> 0
             then (lg @ [(ERROR,
                     ustr ''git clone failed. Check the URL and your network connection.'')],
                   Exited 1)
             else (lg @ [(SUCCESS, ustr ''Repository cloned: '' @ dest)], Returned dest))"

definition clone_repository :: "machine \<Rightarrow> pystr \<Rightarrow> pystr option \<Rightarrow> log \<times> pystr outcome" where
  "clone_repository m url dest =
     (case check_git m of
        (lg, Exited n) \<Rightarrow> (lg, Exited n)
      | (lg, Raised e) \<Rightarrow> (lg, Raised e)
      | (lg, Returned _) \<Rightarrow>
          (let dest = clone_dest m url dest in
           if exists_path m dest
           then (let lg = lg @ [(WARN, ustr ''Destination already exists '' @ [8212]
                                        @ ustr '' removing: '' @ dest)]
                 in case rmtree m dest of
                      Some e \<Rightarrow> (lg, Raised e)
                    | None \<Rightarrow> run_clone m url dest lg)
           else run_clone m url dest lg))"


section \<open>detectors.py: the directory\<close>

text \<open>
  The detector reads the cloned directory and writes nothing. Of the directory it sees
  \<^item> \<open>kind_at p\<close>: what \<^verbatim>\<open>root / p\<close> points to, if anything (\<^verbatim>\<open>Path.exists\<close> is true of a
    regular file and of a directory alike);
  \<^item> \<open>stat_raises p\<close>: whether \<^verbatim>\<open>(root / p).exists()\<close> raises instead of answering:
    \<^verbatim>\<open>Path.exists\<close> answers \<open>False\<close> when the path is missing and passes every other
    \<open>OSError\<close> of the underlying \<^verbatim>\<open>stat\<close> on, as for a name that is too long. It is
    consulted for the path that the manifest names, which the repository chooses
    freely; for the fixed names of the program the model takes it that \<^verbatim>\<open>stat\<close> does
    not fail so;
  \<^item> \<open>package_json\<close>: what \<^verbatim>\<open>json.loads(pkg.read_text())\<close> gives for the root's
    package.json: the decoded document, or the exception raised by reading
    (\<open>OSError\<close>, \<open>UnicodeDecodeError\<close>) or by the decoder (\<open>JSONDecodeError\<close>,
    \<open>RecursionError\<close> for a document nested too deep);
  \<^item> \<open>rglob_py\<close>: the paths of \<^verbatim>\<open>root.rglob("*.py")\<close>, each with what
    \<^verbatim>\<open>read_text(errors="ignore")\<close> gives for it: its text, or \<open>None\<close> when reading
    raises \<open>OSError\<close> (with \<^verbatim>\<open>errors="ignore"\<close> decoding does not raise).
  The log calls of the detector print to the console and are left out.
\<close>

datatype kind = RegularFile | Directory

text \<open>A decoded JSON document. A number stands for an \<^verbatim>\<open>int\<close>; the code looks at a
  number only to see whether it is zero.\<close>

datatype json =
  JNull | JBool bool | JNum int | JStr pystr | JArr "json list" | JObj "(pystr \<times> json) list"

record directory =
  kind_at :: "pystr \<Rightarrow> kind option"
  stat_raises :: "pystr \<Rightarrow> bool"
  package_json :: "py_error + json"
  rglob_py :: "(pystr \<times> pystr option) list"

definition path_exists :: "directory \<Rightarrow> pystr \<Rightarrow> bool" where
  "path_exists root p = (kind_at root p \<noteq> None)"

text \<open>\<^verbatim>\<open>(root / p).exists()\<close> for a path \<open>p\<close> taken from the repository's data.\<close>

definition exists_or_raise :: "directory \<Rightarrow> pystr \<Rightarrow> py_error + bool" where
  "exists_or_raise root p = (if stat_raises root p then Inl OSError else Inr (path_exists root p))"

record ProjectInfo =
  project_type :: pystr
  entry_point :: "pystr option"
  dep_file :: "pystr option"
  base_image :: "pystr option"
  start_command :: "pystr option"
  scanned_imports :: "pystr list"

definition PYTHON_ENTRY_CANDIDATES :: "pystr list" where
  "PYTHON_ENTRY_CANDIDATES =
     map ustr [''app.py'', ''main.py'', ''server.py'', ''run.py'', ''manage.py'', ''cli.py'']"

definition NODE_ENTRY_CANDIDATES :: "pystr list" where
  "NODE_ENTRY_CANDIDATES =
     map ustr [''index.js'', ''server.js'', ''app.js'', ''main.js'', ''src/index.js'']"

text \<open>The loop \<^verbatim>\<open>for candidate in ...: if (root / candidate).exists(): return candidate\<close>,
  with \<open>None\<close> when it runs out.\<close>

fun first_existing :: "directory \<Rightarrow> pystr list \<Rightarrow> pystr option" where
  "first_existing root [] = None"
| "first_existing root (candidate # rest) =
     (if path_exists root candidate then Some candidate else first_existing root rest)"

definition find_python_entry :: "directory \<Rightarrow> pystr option" where
  "find_python_entry root = first_existing root PYTHON_ENTRY_CANDIDATES"

text \<open>Truth value of a decoded JSON value, as \<^verbatim>\<open>main and ...\<close> tests it.\<close>

fun truthy :: "json \<Rightarrow> bool" where
  "truthy JNull = False"
| "truthy (JBool b) = b"
| "truthy (JNum n) = (n \<noteq> 0)"
| "truthy (JStr s) = (s \<noteq> [])"
| "truthy (JArr xs) = (xs \<noteq> [])"
| "truthy (JObj kvs) = (kvs \<noteq> [])"

text \<open>\<^verbatim>\<open>data.get(key)\<close> on a decoded object: the decoder keeps the last of several
  members with one name, and \<^verbatim>\<open>get\<close> gives \<^verbatim>\<open>None\<close> for a missing name.\<close>

definition dict_get :: "(pystr \<times> json) list \<Rightarrow> pystr \<Rightarrow> json" where
  "dict_get kvs key = (case map_of (rev kvs) key of None \<Rightarrow> JNull | Some v \<Rightarrow> v)"

text \<open>
  The body of the \<^verbatim>\<open>try\<close> in \<open>_find_node_entry\<close>. \<open>Inr (Some main)\<close> is its
  \<^verbatim>\<open>return main\<close>, \<open>Inr None\<close> is leaving the block without returning. A decoded value
  that is no object has no \<^verbatim>\<open>get\<close> (\<open>AttributeError\<close>), \<^verbatim>\<open>root / main\<close> raises
  \<open>TypeError\<close> unless \<open>main\<close> is a string, and \<^verbatim>\<open>exists\<close> may raise \<open>OSError\<close> for the
  path that \<open>main\<close> names.
\<close>

definition main_of_package_json :: "directory \<Rightarrow> py_error + pystr option" where
  "main_of_package_json root =
     (case package_json root of
        Inl e \<Rightarrow> Inl e
      | Inr (JObj kvs) \<Rightarrow>
          (let main = dict_get kvs (ustr ''main'') in
           if \<not> truthy main then Inr None
           else (case main of
                   JStr m \<Rightarrow>
                     (case exists_or_raise root m of
                        Inl e \<Rightarrow> Inl e
                      | Inr found \<Rightarrow> if found then Inr (Some m) else Inr None)
                 | _ \<Rightarrow> Inl TypeError))
      | Inr _ \<Rightarrow> Inl AttributeError)"

definition find_node_entry :: "directory \<Rightarrow> py_error + pystr option" where
  "find_node_entry root =
     (if path_exists root (ustr ''package.json'')
      then (case main_of_package_json root of
              Inr (Some main) \<Rightarrow> Inr (Some main)
            | Inr None \<Rightarrow> Inr (first_existing root NODE_ENTRY_CANDIDATES)
            | Inl e \<Rightarrow>
                if e = JSONDecodeError \<or> e = KeyError
                then Inr (first_existing root NODE_ENTRY_CANDIDATES)
                else Inl e)
      else Inr (first_existing root NODE_ENTRY_CANDIDATES))"


subsection \<open>The import scan\<close>

definition stdlib_prefixes :: "pystr list" where
  "stdlib_prefixes = map ustr
     [''os'', ''sys'', ''re'', ''io'', ''abc'', ''ast'', ''csv'', ''json'', ''math'',
      ''time'', ''enum'', ''uuid'', ''copy'', ''glob'', ''gzip'', ''hmac'', ''html'',
      ''http'', ''logging'', ''pathlib'', ''shutil'', ''socket'', ''struct'',
      ''string'', ''threading'', ''traceback'', ''typing'', ''unittest'',
      ''urllib'', ''xml'', ''zipfile'', ''subprocess'', ''collections'',
      ''contextlib'', ''dataclasses'', ''datetime'', ''functools'', ''hashlib'',
      ''inspect'', ''itertools'', ''multiprocessing'', ''operator'', ''random'',
      ''signal'', ''stat'', ''tempfile'', ''textwrap'', ''warnings'']"

definition ident_start :: "nat \<Rightarrow> bool" where
  "ident_start c =
     (in_range CHR ''a'' CHR ''z'' c \<or> in_range CHR ''A'' CHR ''Z'' c \<or> c = of_char CHR ''_'')"

definition ident_char :: "nat \<Rightarrow> bool" where
  "ident_char c = (ident_start c \<or> in_range CHR ''0'' CHR ''9'' c)"

text \<open>
  \<^verbatim>\<open>import_re.match(line)\<close> for \<^verbatim>\<open>^\s*(?:import|from)\s+([a-zA-Z_][a-zA-Z0-9_]*)\<close>, giving
  group 1. Every quantifier of the pattern is greedy and is followed by something that
  the characters it repeats cannot start, so backtracking finds nothing that the
  longest runs miss: skip the whitespace, read the keyword (\<open>match_keyword\<close> gives what
  follows it), skip at least one whitespace character, read the longest identifier
  (\<open>match_identifier\<close>).
\<close>

definition match_keyword :: "pystr \<Rightarrow> pystr option" where
  "match_keyword s =
     (if startswith s (ustr ''import'') then Some (drop 6 s)
      else if startswith s (ustr ''from'') then Some (drop 4 s)
      else None)"

definition match_identifier :: "pystr \<Rightarrow> pystr option" where
  "match_identifier t =
     (case t of
        [] \<Rightarrow> None
      | c # _ \<Rightarrow> if ident_start c then Some (takeWhile ident_char t) else None)"

definition import_match :: "pystr \<Rightarrow> pystr option" where
  "import_match line =
     (case match_keyword (dropWhile is_space line) of
        None \<Rightarrow> None
      | Some r \<Rightarrow>
          (let t = dropWhile is_space r in
           if length t = length r then None else match_identifier t))"

text \<open>
  The Python set \<open>found\<close> is the list of its elements, each once, in the order they were
  first added; \<open>set_add\<close> is \<^verbatim>\<open>found.add(pkg)\<close>. The order in which Python iterates over
  the set is not modelled.
\<close>

definition set_add :: "pystr \<Rightarrow> pystr list \<Rightarrow> pystr list" where
  "set_add pkg found = (if pkg \<in> set found then found else found @ [pkg])"

fun scan_lines :: "pystr list \<Rightarrow> pystr list \<Rightarrow> pystr list" where
  "scan_lines [] found = found"
| "scan_lines (line # rest) found =
     (case import_match line of
        None \<Rightarrow> scan_lines rest found
      | Some pkg \<Rightarrow>
          if pkg \<notin> set stdlib_prefixes then scan_lines rest (set_add pkg found)
          else scan_lines rest found)"

fun scan_files :: "(pystr \<times> pystr option) list \<Rightarrow> pystr list \<Rightarrow> pystr list" where
  "scan_files [] found = found"
| "scan_files ((fpath, None) # rest) found = scan_files rest found"
| "scan_files ((fpath, Some text) # rest) found =
     scan_files rest (scan_lines (splitlines text) found)"

definition scan_python_imports :: "(pystr \<times> pystr option) list \<Rightarrow> pystr list" where
  "scan_python_imports py_files = scan_files py_files []"

subsection \<open>Detection\<close>

text \<open>\<^verbatim>\<open>f"python {entry}" if entry else None\<close>\<close>

definition python_command :: "pystr option \<Rightarrow> pystr option" where
  "python_command entry =
     (case entry of
        None \<Rightarrow> None
      | Some e \<Rightarrow> if e = [] then None else Some (ustr ''python '' @ e))"

definition detect_project :: "directory \<Rightarrow> py_error + ProjectInfo" where
  "detect_project root =
     (if path_exists root (ustr ''requirements.txt'') then
        (let entry = find_python_entry root in
         Inr \<lparr>project_type = ustr ''python'', entry_point = entry,
              dep_file = Some (ustr ''requirements.txt''),
              base_image = Some (ustr ''python:3.11-slim''),
              start_command = python_command entry, scanned_imports = []\<rparr>)
      else if path_exists root (ustr ''pyproject.toml'') then
        (let entry = find_python_entry root in
         Inr \<lparr>project_type = ustr ''poetry'', entry_point = entry,
              dep_file = Some (ustr ''pyproject.toml''),
              base_image = Some (ustr ''python:3.11-slim''),
              start_command = python_command entry, scanned_imports = []\<rparr>)
      else if path_exists root (ustr ''package.json'') then
        (case find_node_entry root of
           Inl e \<Rightarrow> Inl e
         | Inr entry \<Rightarrow>
             Inr \<lparr>project_type = ustr ''node'', entry_point = entry,
                  dep_file = Some (ustr ''package.json''),
                  base_image = Some (ustr ''node:18-slim''),
                  start_command = Some (ustr ''npm start''), scanned_imports = []\<rparr>)
      else if rglob_py root \<noteq> [] then
        (let imports = scan_python_imports (rglob_py root);
             entry = find_python_entry root in
         Inr \<lparr>project_type = ustr ''python'', entry_point = entry,
              dep_file = None,
              base_image = Some (ustr ''python:3.11-slim''),
              start_command = python_command entry, scanned_imports = imports\<rparr>)
      else
        Inr \<lparr>project_type = ustr ''unknown'', entry_point = None, dep_file = None,
             base_image = None, start_command = None, scanned_imports = []\<rparr>)"

section \<open>Example inputs\<close>


text \<open>A Node project whose \<^verbatim>\<open>package.json\<close> holds the JSON document \<^verbatim>\<open>[]\<close>.\<close>

definition dir_manifest_is_list :: directory where
  "dir_manifest_is_list =
     \<lparr>kind_at = (\<lambda>p. if p = ustr ''package.json'' \<or> p = ustr ''index.js''
                       then Some RegularFile else None),
      stat_raises = (\<lambda>p. False),
      package_json = Inr (JArr []), rglob_py = []\<rparr>"

text \<open>A directory in which \<^verbatim>\<open>package.json\<close> is itself a directory, so that reading it
  raises \<open>OSError\<close>.\<close>

definition dir_manifest_unreadable :: directory where
  "dir_manifest_unreadable =
     \<lparr>kind_at = (\<lambda>p. if p = ustr ''package.json'' then Some Directory
                       else if p = ustr ''index.js'' then Some RegularFile else None),
      stat_raises = (\<lambda>p. False),
      package_json = Inl OSError, rglob_py = []\<rparr>"

text \<open>A Node project whose \<^verbatim>\<open>main\<close> is a name of 300 characters, for which \<^verbatim>\<open>stat\<close>
  fails with "file name too long", and an \<^verbatim>\<open>index.js\<close>.\<close>

definition dir_long_main :: directory where
  "dir_long_main =
     \<lparr>kind_at = (\<lambda>p. if p = ustr ''package.json'' \<or> p = ustr ''index.js''
                       then Some RegularFile else None),
      stat_raises = (\<lambda>p. p = replicate 300 (of_char CHR ''a'')),
      package_json = Inr (JObj [(ustr ''main'', JStr (replicate 300 (of_char CHR ''a'')))]),
      rglob_py = []\<rparr>"

text \<open>A Node project with \<^verbatim>\<open>{"main": "dist/index.js"}\<close>, no such file, and a
  \<^verbatim>\<open>server.js\<close>.\<close>

definition dir_dangling_main :: directory where
  "dir_dangling_main =
     \<lparr>kind_at = (\<lambda>p. if p = ustr ''package.json'' \<or> p = ustr ''server.js''
                       then Some RegularFile else None),
      stat_raises = (\<lambda>p. False),
      package_json = Inr (JObj [(ustr ''main'', JStr (ustr ''dist/index.js''))]),
      rglob_py = []\<rparr>"

text \<open>A Node project with \<^verbatim>\<open>{"name": "demo", "main": "src/index.js"}\<close> and that file.\<close>

definition dir_main_present :: directory where
  "dir_main_present =
     \<lparr>kind_at = (\<lambda>p. if p = ustr ''src'' then Some Directory
                       else if p = ustr ''package.json'' \<or> p = ustr ''src/index.js''
                               \<or> p = ustr ''index.js''
                       then Some RegularFile else None),
      stat_raises = (\<lambda>p. False),
      package_json = Inr (JObj [(ustr ''name'', JStr (ustr ''demo'')),
                                (ustr ''main'', JStr (ustr ''src/index.js''))]),
      rglob_py = []\<rparr>"


text \<open>The empty directory.\<close>

definition dir_empty :: directory where
  "dir_empty =
     \<lparr>kind_at = (\<lambda>p. None), stat_raises = (\<lambda>p. False), package_json = Inl OSError,
      rglob_py = []\<rparr>"

text \<open>A machine with git, on which every clone ends with status 128.\<close>

definition machine_clone_fails :: machine where
  "machine_clone_fails =
     \<lparr>which_git = True, gettempdir = ustr ''/tmp'', exists_path = (\<lambda>p. False),
      rmtree = (\<lambda>p. None), git_clone = (\<lambda>url dest. Inr 128)\<rparr>"

text \<open>A URL whose path is 113 times \<^verbatim>\<open>a\<close> followed by \<^verbatim>\<open>/b\<close>.\<close>

definition url_long :: pystr where
  "url_long = ustr ''https://github.com/'' @ replicate 113 (of_char CHR ''a'') @ ustr ''/b''"

text \<open>Three paths found by \<^verbatim>\<open>rglob("*.py")\<close>: two files that import numpy, one of them
  importing os as well, and one path that cannot be read.\<close>

definition py_sources :: "(pystr \<times> pystr option) list" where
  "py_sources =
     [(ustr ''a.py'', Some (ustr ''import numpy'' @ [10] @ ustr ''import os'')),
      (ustr ''pkg.py'', None),
      (ustr ''b.py'', Some (ustr '' from numpy import x''))]"


section \<open>Notions of the specification\<close>

text \<open>
  Stated in the words of the specification, for comparison with \<open>find_node_entry\<close>: the
  \<^verbatim>\<open>main\<close> field is present when the manifest exists and decodes to an object with a
  non-empty string member of that name; it is used when the path it names exists,
  and the candidate list is searched otherwise.
\<close>

definition main_field :: "directory \<Rightarrow> pystr option" where
  "main_field root =
     (if path_exists root (ustr ''package.json'')
      then (case package_json root of
              Inr (JObj kvs) \<Rightarrow>
                (case map_of (rev kvs) (ustr ''main'') of
                   Some (JStr m) \<Rightarrow> if m = [] then None else Some m
                 | _ \<Rightarrow> None)
            | _ \<Rightarrow> None)
      else None)"

definition spec_find_node_entry :: "directory \<Rightarrow> pystr option" where
  "spec_find_node_entry root =
     (case main_field root of
        Some m \<Rightarrow>
          if path_exists root m then Some m
          else List.find (path_exists root) NODE_ENTRY_CANDIDATES
      | None \<Rightarrow> List.find (path_exists root) NODE_ENTRY_CANDIDATES)"


text \<open>The characters \<^verbatim>\<open>[a-z0-9._-]\<close> that the specification allows in an image tag.\<close>

definition tag_char :: "nat \<Rightarrow> bool" where
  "tag_char c =
     (in_range CHR ''a'' CHR ''z'' c \<or> in_range CHR ''0'' CHR ''9'' c \<or> c \<in> set (ustr ''._-''))"

text \<open>A module token: a string matching \<^verbatim>\<open>[a-zA-Z_][a-zA-Z0-9_]*\<close> as a whole.\<close>

definition module_token :: "pystr \<Rightarrow> bool" where
  "module_token pkg =
     (case pkg of [] \<Rightarrow> False | c # cs \<Rightarrow> ident_start c \<and> list_all ident_char cs)"


section \<open>Properties\<close>

lemma ustr_simps:
  "ustr [] = []" "ustr (c # s) = of_char c # ustr s"
  by (simp_all add: ustr_def)

subsection \<open>Detection order\<close>



lemma first_existing_find: "first_existing root cs = List.find (path_exists root) cs"
  by (induction cs) simp_all

lemma first_existing_Some_iff:
  "first_existing root cs = Some c \<longleftrightarrow>
     (\<exists>i<length cs. cs ! i = c \<and> path_exists root c \<and> (\<forall>j<i. \<not> path_exists root (cs ! j)))"
  unfolding first_existing_find by (auto simp: find_Some_iff)


subsection \<open>Detection never raising\<close>

text \<open>
  C2. The claim is that \<open>detect_project\<close> returns a \<open>ProjectInfo\<close> for every directory and
  that a malformed or unreadable \<^verbatim>\<open>package.json\<close> is swallowed. The \<^verbatim>\<open>try\<close> of
  \<open>_find_node_entry\<close> catches \<open>JSONDecodeError\<close> and \<open>KeyError\<close> only: for a manifest
  holding the JSON document \<^verbatim>\<open>[]\<close> the call \<^verbatim>\<open>data.get\<close> raises \<open>AttributeError\<close>, and
  for a manifest that cannot be read \<^verbatim>\<open>read_text\<close> raises \<open>OSError\<close>; both leave
  \<open>detect_project\<close> as exceptions.
\<close>

theorem detect_project_raises:
  "detect_project dir_manifest_is_list = Inl AttributeError
   \<and> detect_project dir_manifest_unreadable = Inl OSError"
  by (simp add: detect_project_def find_node_entry_def main_of_package_json_def
      path_exists_def dir_manifest_is_list_def dir_manifest_unreadable_def ustr_simps)

subsection \<open>Node entry point\<close>

text \<open>An entry point that is returned exists, so a dangling \<^verbatim>\<open>main\<close> is never returned.\<close>

lemma find_node_entry_existing:
  "find_node_entry root = Inr (Some e) \<Longrightarrow> path_exists root e"
proof -
  have ex: "first_existing root cs = Some e \<Longrightarrow> path_exists root e" for cs
    by (simp add: first_existing_Some_iff) blast
  assume "find_node_entry root = Inr (Some e)"
  then show ?thesis
    by (auto simp: find_node_entry_def main_of_package_json_def exists_or_raise_def Let_def
        split: if_splits sum.splits json.splits option.splits dest: ex)
qed

text \<open>Whenever the search returns, it returns what the specification says.\<close>

lemma find_node_entry_meets_spec:
  assumes "find_node_entry root = Inr r"
  shows "r = spec_find_node_entry root"
proof (cases "path_exists root (ustr ''package.json'')")
  case False
  with assms show ?thesis
    by (simp add: find_node_entry_def spec_find_node_entry_def main_field_def
        first_existing_find)
next
  case True
  show ?thesis
  proof (cases "package_json root")
    case (Inl e)
    with True assms show ?thesis
      by (simp add: find_node_entry_def main_of_package_json_def spec_find_node_entry_def
          main_field_def first_existing_find split: if_splits)
  next
    case (Inr data)
    show ?thesis
    proof (cases data)
      case (JObj kvs)
      show ?thesis
      proof (cases "dict_get kvs (ustr ''main'')")
        case (JStr m)
        then have m: "map_of (rev kvs) (ustr ''main'') = Some (JStr m)"
          by (simp add: dict_get_def split: option.splits)
        from True Inr JObj JStr m assms show ?thesis
          by (simp add: find_node_entry_def main_of_package_json_def exists_or_raise_def
              spec_find_node_entry_def main_field_def first_existing_find
              split: if_splits)
      next
        case JNull
        then have "\<forall>m. map_of (rev kvs) (ustr ''main'') \<noteq> Some (JStr m)"
          by (simp add: dict_get_def split: option.splits)
        with True Inr JObj JNull assms show ?thesis
          by (simp add: find_node_entry_def main_of_package_json_def
              spec_find_node_entry_def main_field_def first_existing_find
              split: option.splits json.splits)
      next
        case (JBool x)
        then have "map_of (rev kvs) (ustr ''main'') = Some (JBool x)"
          by (simp add: dict_get_def split: option.splits)
        with True Inr JObj JBool assms show ?thesis
          by (simp add: find_node_entry_def main_of_package_json_def
              spec_find_node_entry_def main_field_def first_existing_find
              split: if_splits)
      next
        case (JNum x)
        then have "map_of (rev kvs) (ustr ''main'') = Some (JNum x)"
          by (simp add: dict_get_def split: option.splits)
        with True Inr JObj JNum assms show ?thesis
          by (simp add: find_node_entry_def main_of_package_json_def
              spec_find_node_entry_def main_field_def first_existing_find
              split: if_splits)
      next
        case (JArr x)
        then have "map_of (rev kvs) (ustr ''main'') = Some (JArr x)"
          by (simp add: dict_get_def split: option.splits)
        with True Inr JObj JArr assms show ?thesis
          by (simp add: find_node_entry_def main_of_package_json_def
              spec_find_node_entry_def main_field_def first_existing_find
              split: if_splits)
      next
        case (JObj x)
        then have "map_of (rev kvs) (ustr ''main'') = Some (json.JObj x)"
          by (simp add: dict_get_def split: option.splits)
        with True Inr \<open>data = json.JObj kvs\<close> JObj assms show ?thesis
          by (simp add: find_node_entry_def main_of_package_json_def
              spec_find_node_entry_def main_field_def first_existing_find
              split: if_splits)
      qed
    qed (use True Inr assms in
          \<open>simp_all add: find_node_entry_def main_of_package_json_def\<close>)
  qed
qed

text \<open>The manifests of \<open>dir_main_present\<close> and of \<open>dir_dangling_main\<close>.\<close>

lemma find_node_entry_examples:
  "find_node_entry dir_main_present = Inr (Some (ustr ''src/index.js''))"
  "find_node_entry dir_dangling_main = Inr (Some (ustr ''server.js''))"
  by (simp_all add: find_node_entry_def main_of_package_json_def exists_or_raise_def
      dict_get_def NODE_ENTRY_CANDIDATES_def path_exists_def dir_main_present_def
      dir_dangling_main_def ustr_simps)

text \<open>
  C3. The claim is that the Node entry-point search returns the \<^verbatim>\<open>main\<close> of
  \<^verbatim>\<open>package.json\<close> when that field is present and names an existing path, and that on
  every failure of that attempt it returns the first existing candidate, or none. Where
  the search returns it does so (\<open>find_node_entry_meets_spec\<close>,
  \<open>find_node_entry_existing\<close>), but not every failure of the attempt is caught: for the
  manifest \<^verbatim>\<open>[]\<close> the search raises \<open>AttributeError\<close>, and for a \<^verbatim>\<open>main\<close> of 300
  characters it raises the \<open>OSError\<close> of \<^verbatim>\<open>exists\<close>, where the claim has it return
  \<^verbatim>\<open>index.js\<close>.
\<close>

theorem find_node_entry_raises:
  "find_node_entry dir_manifest_is_list = Inl AttributeError
   \<and> spec_find_node_entry dir_manifest_is_list = Some (ustr ''index.js'')
   \<and> find_node_entry dir_long_main = Inl OSError
   \<and> spec_find_node_entry dir_long_main = Some (ustr ''index.js'')"
proof -
  have a: "find_node_entry dir_manifest_is_list = Inl AttributeError"
    by (simp add: find_node_entry_def main_of_package_json_def path_exists_def
        dir_manifest_is_list_def)
  have b: "spec_find_node_entry dir_manifest_is_list = Some (ustr ''index.js'')"
    by (simp add: spec_find_node_entry_def main_field_def NODE_ENTRY_CANDIDATES_def
        path_exists_def dir_manifest_is_list_def)
  have long: "(replicate 300 c = p) = False" if "length p < 300" for c :: nat and p
    using that by auto
  have c: "find_node_entry dir_long_main = Inl OSError"
    by (simp add: find_node_entry_def main_of_package_json_def exists_or_raise_def
        dict_get_def path_exists_def dir_long_main_def)
  have d: "spec_find_node_entry dir_long_main = Some (ustr ''index.js'')"
    by (simp add: spec_find_node_entry_def main_field_def NODE_ENTRY_CANDIDATES_def
        path_exists_def dir_long_main_def ustr_simps long)
  show ?thesis using a b c d by simp
qed

subsection \<open>Python entry point\<close>




subsection \<open>Base image\<close>

text \<open>
  C8. In the \<open>ProjectInfo\<close> that \<open>detect_project\<close> returns, \<open>base_image\<close> is \<open>None\<close> if and
  only if the project type is \<^verbatim>\<open>unknown\<close>; for the types \<^verbatim>\<open>python\<close> (by manifest or by
  source files) and \<^verbatim>\<open>poetry\<close> it is \<^verbatim>\<open>python:3.11-slim\<close>, and for \<^verbatim>\<open>node\<close> it is
  \<^verbatim>\<open>node:18-slim\<close>. There is no other project type.
\<close>

theorem detect_project_base_image:
  assumes "detect_project root = Inr info"
  shows "(base_image info = None \<longleftrightarrow> project_type info = ustr ''unknown'')
     \<and> (project_type info = ustr ''python'' \<or> project_type info = ustr ''poetry''
          \<longrightarrow> base_image info = Some (ustr ''python:3.11-slim''))
     \<and> (project_type info = ustr ''node'' \<longrightarrow> base_image info = Some (ustr ''node:18-slim''))
     \<and> project_type info \<in> set (map ustr [''python'', ''poetry'', ''node'', ''unknown''])"
  using assms
  by (auto simp: detect_project_def Let_def ustr_simps split: if_splits sum.splits)

theorem detect_project_base_image_witness:
  "detect_project dir_empty =
     Inr \<lparr>project_type = ustr ''unknown'', entry_point = None, dep_file = None,
          base_image = None, start_command = None, scanned_imports = []\<rparr>
   \<and> detect_project dir_dangling_main =
     Inr \<lparr>project_type = ustr ''node'', entry_point = Some (ustr ''server.js''),
          dep_file = Some (ustr ''package.json''),
          base_image = Some (ustr ''node:18-slim''),
          start_command = Some (ustr ''npm start''), scanned_imports = []\<rparr>"
proof -
  have a: "detect_project dir_empty =
     Inr \<lparr>project_type = ustr ''unknown'', entry_point = None, dep_file = None,
          base_image = None, start_command = None, scanned_imports = []\<rparr>"
    by (simp add: detect_project_def path_exists_def dir_empty_def)
  obtain info where b: "detect_project dir_dangling_main = Inr info"
    and c: "project_type info = ustr ''node''"
    and d: "entry_point info = Some (ustr ''server.js'')"
    and e: "dep_file info = Some (ustr ''package.json'')"
    and f: "start_command info = Some (ustr ''npm start'')" and g: "scanned_imports info = []"
    by (simp add: detect_project_def find_node_entry_def main_of_package_json_def
        exists_or_raise_def dict_get_def NODE_ENTRY_CANDIDATES_def path_exists_def
        dir_dangling_main_def ustr_simps)
  from detect_project_base_image [OF b] c
  have "base_image info = Some (ustr ''node:18-slim'')" by blast
  with b c d e f g show ?thesis using a by simp
qed

subsection \<open>Cloning\<close>

text \<open>
  C9. When git is found, the destination is free or has been removed, and
  \<^verbatim>\<open>git clone\<close> ends with a status other than zero, \<open>clone_repository\<close> ends the process
  with status 1, and the last line it has logged is the error line about the failed
  clone. It returns only the destination path, and only when \<^verbatim>\<open>git clone\<close> ended with
  status zero.
\<close>

theorem clone_repository_exit_status:
  "(which_git m \<and> d = clone_dest m url dest \<and> (exists_path m d \<longrightarrow> rmtree m d = None)
      \<and> git_clone m url d = Inr returncode \<and> returncode \<noteq> 0
      \<longrightarrow> snd (clone_repository m url dest) = Exited 1
          \<and> fst (clone_repository m url dest) \<noteq> []
          \<and> last (fst (clone_repository m url dest)) =
              (ERROR, ustr ''git clone failed. Check the URL and your network connection.''))
   \<and> (snd (clone_repository m url dest) = Returned p
      \<longrightarrow> p = clone_dest m url dest \<and> git_clone m url p = Inr 0)"
  by (auto simp: clone_repository_def check_git_def run_clone_def Let_def
      split: if_splits sum.splits option.splits)

theorem clone_repository_exit_status_witness:
  "clone_dest machine_clone_fails (ustr ''https://github.com/user/repo'') None
     = ustr ''/tmp/devreplicator_repo''
   \<and> git_clone machine_clone_fails (ustr ''https://github.com/user/repo'')
        (ustr ''/tmp/devreplicator_repo'') = Inr 128
   \<and> snd (clone_repository machine_clone_fails (ustr ''https://github.com/user/repo'') None)
        = Exited 1
   \<and> last (fst (clone_repository machine_clone_fails (ustr ''https://github.com/user/repo'') None))
        = (ERROR, ustr ''git clone failed. Check the URL and your network connection.'')"
proof -
  have a: "clone_dest machine_clone_fails (ustr ''https://github.com/user/repo'') None
     = ustr ''/tmp/devreplicator_repo''"
    by code_simp
  have b: "which_git machine_clone_fails
     \<and> (exists_path machine_clone_fails (ustr ''/tmp/devreplicator_repo'')
          \<longrightarrow> rmtree machine_clone_fails (ustr ''/tmp/devreplicator_repo'') = None)
     \<and> git_clone machine_clone_fails (ustr ''https://github.com/user/repo'')
          (ustr ''/tmp/devreplicator_repo'') = Inr 128 \<and> (128::int) \<noteq> 0"
    by (simp add: machine_clone_fails_def)
  from clone_repository_exit_status
         [of machine_clone_fails "ustr ''/tmp/devreplicator_repo''"
             "ustr ''https://github.com/user/repo''" None 128] a b
  show ?thesis by simp
qed

subsection \<open>Facts about the string methods\<close>

lemma rstrip_append_chars:
  "set d \<subseteq> set chars \<Longrightarrow> rstrip chars (s @ d) = rstrip chars s"
proof -
  assume "set d \<subseteq> set chars"
  then have "dropWhile (\<lambda>c. c \<in> set chars) (rev d @ rev s)
      = dropWhile (\<lambda>c. c \<in> set chars) (rev s)"
    by (intro dropWhile_append2) auto
  then show ?thesis by (simp add: rstrip_def)
qed

lemma rstrip_unchanged:
  "s = [] \<or> last s \<notin> set chars \<Longrightarrow> rstrip chars s = s"
  by (cases s rule: rev_cases) (simp_all add: rstrip_def)

lemma rstrip_keeps_prefix:
  "p \<noteq> [] \<Longrightarrow> last p \<notin> set chars \<Longrightarrow> rstrip chars (p @ n) = p @ rstrip chars n"
  by (cases p rule: rev_cases) (auto simp: rstrip_def dropWhile_append)

lemma lstrip_unchanged:
  "s = [] \<or> hd s \<notin> set chars \<Longrightarrow> lstrip chars s = s"
  by (cases s) (simp_all add: lstrip_def)

lemma rstrip_last:
  "rstrip chars s \<noteq> [] \<Longrightarrow> last (rstrip chars s) \<notin> set chars"
proof -
  assume a: "rstrip chars s \<noteq> []"
  then have "dropWhile (\<lambda>c. c \<in> set chars) (rev s) \<noteq> []" by (simp add: rstrip_def)
  then have "\<not> hd (dropWhile (\<lambda>c. c \<in> set chars) (rev s)) \<in> set chars"
    by (rule hd_dropWhile)
  then show ?thesis using a by (simp add: rstrip_def last_rev)
qed

lemma set_rstrip: "set (rstrip chars s) \<subseteq> set s"
  using set_dropWhileD [of _ "\<lambda>c. c \<in> set chars" "rev s"] by (auto simp: rstrip_def)

lemma set_lstrip: "set (lstrip chars s) \<subseteq> set s"
  using set_dropWhileD [of _ "\<lambda>c. c \<in> set chars" s] by (auto simp: lstrip_def)

lemma set_strip: "set (strip chars s) \<subseteq> set s"
  using set_rstrip set_lstrip unfolding strip_def by blast

lemma lstrip_hd: "lstrip chars s \<noteq> [] \<Longrightarrow> hd (lstrip chars s) \<notin> set chars"
  unfolding lstrip_def by (rule hd_dropWhile)

lemma strip_ends:
  assumes "strip chars s \<noteq> []"
  shows "hd (strip chars s) \<notin> set chars" and "last (strip chars s) \<notin> set chars"
proof -
  let ?l = "lstrip chars s"
  from assms have l: "?l \<noteq> []" by (auto simp: strip_def rstrip_def)
  then have h: "hd ?l \<notin> set chars" by (rule lstrip_hd)
  with l have "rev ?l = butlast (rev ?l) @ [hd ?l]"
    by (metis append_butlast_last_id last_rev rev_is_Nil_conv)
  show "last (strip chars s) \<notin> set chars"
    using assms unfolding strip_def by (rule rstrip_last)
  have "rstrip chars ?l = hd ?l # rstrip chars (tl ?l)"
    using rstrip_keeps_prefix [of "[hd ?l]" chars "tl ?l"] h l by simp
  then show "hd (strip chars s) \<notin> set chars" using h by (simp add: strip_def)
qed

lemma strip_unchanged:
  "s = [] \<or> (hd s \<notin> set chars \<and> last s \<notin> set chars) \<Longrightarrow> strip chars s = s"
  by (auto simp: strip_def lstrip_unchanged rstrip_unchanged)

lemma strip_idem: "strip chars (strip chars s) = strip chars s"
  using strip_ends [of chars s] by (intro strip_unchanged) blast

lemma startswith_set: "startswith s p \<Longrightarrow> set p \<subseteq> set s"
  unfolding startswith_def by (metis set_take_subset)

lemma split_from_no_sep:
  "c0 \<in> set sep \<Longrightarrow> c0 \<notin> set s \<Longrightarrow> split_from sep cur s = [cur @ s]"
proof (induction s arbitrary: cur)
  case Nil
  then show ?case by simp
next
  case (Cons c cs)
  then have "\<not> startswith (c # cs) sep" using startswith_set by blast
  with Cons show ?case by simp
qed

lemma split_from_not_Nil: "split_from sep cur s \<noteq> []"
  by (induction sep cur s rule: split_from.induct) simp_all

lemma split_from_last:
  "last (split_from sep cur s) \<noteq> [] \<Longrightarrow> last (last (split_from sep cur s)) = last (cur @ s)"
proof (induction sep cur s rule: split_from.induct)
  case (1 sep cur)
  then show ?case by simp
next
  case (2 sep cur c cs)
  show ?case
  proof (cases "startswith (c # cs) sep")
    case True
    let ?r = "drop (length sep - 1) cs"
    have ne: "split_from sep [] ?r \<noteq> []" by (rule split_from_not_Nil)
    from True "2.prems" have l: "last (split_from sep [] ?r) \<noteq> []" using ne by simp
    have rne: "?r \<noteq> []" using l by (cases ?r) auto
    from True l "2.IH"(1) have "last (last (split_from sep [] ?r)) = last ?r" by simp
    moreover have "last ?r = last cs" using rne by (simp add: last_drop)
    moreover have "cs \<noteq> []" using rne by auto
    ultimately show ?thesis using True ne by simp
  next
    case False
    with 2 show ?thesis by simp
  qed
qed

subsection \<open>The image tag\<close>

lemma tag_char_lower: "slug_char c \<Longrightarrow> tag_char (lower_char c)"
  by (auto simp: slug_char_def tag_char_def lower_char_def in_range_def ustr_simps)

lemma tag_char_hyphen: "tag_char (of_char CHR ''-'')"
  by (simp add: tag_char_def ustr_simps)

lemma tag_char_slug_char: "tag_char c \<Longrightarrow> slug_char c"
  by (auto simp: slug_char_def tag_char_def)

lemma tag_char_lower_id: "tag_char c \<Longrightarrow> lower_char c = c"
  by (auto simp: tag_char_def lower_char_def in_range_def ustr_simps)

lemma tag_char_not_slash: "tag_char c \<Longrightarrow> c \<noteq> of_char CHR ''/''"
  by (auto simp: tag_char_def in_range_def ustr_simps)

lemma lower_re_sub_chars: "c \<in> set (lower (re_sub n)) \<Longrightarrow> tag_char c"
  using tag_char_lower tag_char_hyphen tag_char_lower_id [OF tag_char_hyphen]
  by (auto simp: lower_def re_sub_def)

lemma re_sub_unchanged: "\<forall>c\<in>set s. tag_char c \<Longrightarrow> re_sub s = s"
  by (simp add: re_sub_def tag_char_slug_char map_idI)

lemma lower_unchanged: "\<forall>c\<in>set s. tag_char c \<Longrightarrow> lower s = s"
  by (simp add: lower_def tag_char_lower_id map_idI)

lemma prefix_chars: "c \<in> set (ustr ''devreplicator-'') \<Longrightarrow> tag_char c"
  by (auto simp: tag_char_def in_range_def ustr_simps)

lemma prefix_length: "length (ustr ''devreplicator-'') = 14"
  by (simp add: ustr_def)

lemma slugify_length: "length (slugify url) \<le> 128"
  by (simp add: slugify_def Let_def)

lemma slugify_prefix: "take 14 (slugify url) = ustr ''devreplicator-''"
  by (simp add: slugify_def Let_def prefix_length min_def)

lemma slugify_chars: "c \<in> set (slugify url) \<Longrightarrow> tag_char c"
proof -
  assume "c \<in> set (slugify url)"
  then have "c \<in> set (ustr ''devreplicator-'')
      \<or> c \<in> set (strip (ustr ''-'') (lower (re_sub (last (split (ustr ''github.com/'')
                   (rstrip (ustr ''.git'') (rstrip (ustr ''/'') url)))))))"
    by (auto simp: slugify_def Let_def dest: in_set_takeD)
  then show ?thesis
    using prefix_chars lower_re_sub_chars set_strip by blast
qed

lemma slugify_not_Nil: "slugify url \<noteq> []"
  using slugify_prefix [of url] by (auto simp: ustr_simps)

lemma slugify_hd: "hd (slugify url) = of_char CHR ''d''"
  using slugify_prefix [of url] slugify_not_Nil [of url]
  by (cases "slugify url") (simp_all add: ustr_simps)

lemma clean_idem:
  "strip (ustr ''-'') (lower (re_sub (strip (ustr ''-'') (lower (re_sub n)))))
     = strip (ustr ''-'') (lower (re_sub n))"
proof -
  let ?x = "strip (ustr ''-'') (lower (re_sub n))"
  have chars: "\<forall>c\<in>set ?x. tag_char c" using lower_re_sub_chars set_strip by blast
  have a: "re_sub ?x = ?x" using chars by (rule re_sub_unchanged)
  have b: "lower ?x = ?x" using chars by (rule lower_unchanged)
  have "strip (ustr ''-'') (lower (re_sub ?x)) = strip (ustr ''-'') ?x"
    by (simp only: a b)
  also have "\<dots> = ?x" by (rule strip_idem)
  finally show ?thesis .
qed

lemma slugify_of_tag:
  "slugify (slugify url)
     = take 128 (ustr ''devreplicator-''
                 @ rstrip (ustr ''-'') (rstrip (ustr ''.git'') (slugify url)))"
proof -
  let ?s = "slugify url"
  let ?P = "ustr ''devreplicator-''"
  let ?r = "rstrip (ustr ''.git'') ?s"
  have chars: "\<forall>c\<in>set ?s. tag_char c" using slugify_chars by blast
  obtain n where s: "?s = ?P @ n"
    using slugify_prefix [of url] append_take_drop_id [of 14 ?s] by metis
  have "last ?s \<noteq> of_char CHR ''/''"
    using chars slugify_not_Nil [of url] tag_char_not_slash last_in_set by blast
  then have 1: "rstrip (ustr ''/'') ?s = ?s"
    by (intro rstrip_unchanged) (simp add: ustr_simps)
  have "rstrip (ustr ''.git'') (?P @ n) = ?P @ rstrip (ustr ''.git'') n"
    by (intro rstrip_keeps_prefix) (simp_all add: ustr_simps)
  then have r: "?r = ?P @ rstrip (ustr ''.git'') n" unfolding s .
  have rchars: "\<forall>c\<in>set ?r. tag_char c" using chars set_rstrip by blast
  then have "of_char CHR ''/'' \<notin> set ?r" using tag_char_not_slash by blast
  then have 2: "split (ustr ''github.com/'') ?r = [?r]"
    unfolding split_def
    using split_from_no_sep [of "of_char CHR ''/''" "ustr ''github.com/''" ?r "[]"]
    by (simp add: ustr_simps)
  have 3: "lower (re_sub ?r) = ?r"
    using re_sub_unchanged [OF rchars] lower_unchanged [OF rchars] by (simp only:)
  have "hd ?r = of_char CHR ''d''" unfolding r by (simp add: ustr_simps)
  moreover have "?r \<noteq> []" unfolding r by (simp add: ustr_simps)
  ultimately have 4: "lstrip (ustr ''-'') ?r = ?r"
    by (intro lstrip_unchanged) (simp add: ustr_simps)
  have "slugify ?s = take 128 (?P @ strip (ustr ''-'') (lower (re_sub (last
            (split (ustr ''github.com/'') (rstrip (ustr ''.git'') (rstrip (ustr ''/'') ?s)))))))"
    by (subst slugify_def) (simp only: Let_def)
  also have "\<dots> = take 128 (?P @ strip (ustr ''-'') ?r)"
    by (simp only: 1 2 last.simps simp_thms if_True 3)
  also have "\<dots> = take 128 (?P @ rstrip (ustr ''-'') ?r)"
    by (simp only: strip_def 4)
  finally show ?thesis .
qed

text \<open>
  The claim C6 as it is stated fails: the tag of \<^verbatim>\<open>https://github.com/user/repo\<close> is
  \<^verbatim>\<open>devreplicator-user-repo\<close>, and slugifying that tag puts the prefix in front of it
  once more.
\<close>

theorem slugify_not_idempotent:
  "slugify (ustr ''https://github.com/user/repo'') = ustr ''devreplicator-user-repo''
   \<and> slugify (slugify (ustr ''https://github.com/user/repo''))
       = ustr ''devreplicator-devreplicator-user-repo''
   \<and> slugify (slugify (ustr ''https://github.com/user/repo''))
       \<noteq> slugify (ustr ''https://github.com/user/repo'')"
proof -
  have a: "slugify (ustr ''https://github.com/user/repo'') = ustr ''devreplicator-user-repo''"
    by code_simp
  have b: "slugify (ustr ''devreplicator-user-repo'')
       = ustr ''devreplicator-devreplicator-user-repo''"
    by code_simp
  have c: "ustr ''devreplicator-devreplicator-user-repo'' \<noteq> ustr ''devreplicator-user-repo''"
    by (simp add: ustr_simps)
  show ?thesis using a b c by simp
qed

text \<open>
  C6, amended. The cleaning step of the derivation (replace every character outside
  \<^verbatim>\<open>[a-zA-Z0-9._-]\<close> by \<^verbatim>\<open>-\<close>, lowercase, strip leading and trailing \<^verbatim>\<open>-\<close>) is
  idempotent. Slugifying a derived tag again gives the prefix \<^verbatim>\<open>devreplicator-\<close> followed
  by the tag without its trailing characters from \<^verbatim>\<open>.git\<close> and then without its trailing
  \<^verbatim>\<open>-\<close>, cut to 128 characters.
\<close>

theorem slugify_again:
  "strip (ustr ''-'') (lower (re_sub (strip (ustr ''-'') (lower (re_sub name)))))
     = strip (ustr ''-'') (lower (re_sub name))
   \<and> slugify (slugify url)
     = take 128 (ustr ''devreplicator-''
                 @ rstrip (ustr ''-'') (rstrip (ustr ''.git'') (slugify url)))"
  using clean_idem slugify_of_tag by blast

text \<open>
  C7. The claim is that every derived tag has at most 128 characters, begins with the
  prefix, has only characters from \<^verbatim>\<open>[a-z0-9._-]\<close> and neither begins nor ends with
  \<^verbatim>\<open>-\<close>. The first three parts and the beginning hold (\<open>slugify_length\<close>,
  \<open>slugify_prefix\<close>, \<open>slugify_chars\<close>, \<open>slugify_hd\<close>). The end fails: the hyphens are
  stripped from the name before the prefix is put in front and the result is cut, so a
  tag ends with \<^verbatim>\<open>-\<close> when the cut falls behind a hyphen, as for the 134 characters of
  \<open>url_long\<close>, and when the name is empty, as for \<^verbatim>\<open>https://github.com/git\<close>.
\<close>

theorem slugify_trailing_hyphen:
  "length url_long = 134
   \<and> slugify url_long = ustr ''devreplicator-'' @ replicate 113 (of_char CHR ''a'') @ ustr ''-''
   \<and> last (slugify url_long) = of_char CHR ''-''
   \<and> slugify (ustr ''https://github.com/git'') = ustr ''devreplicator-''"
proof -
  have a: "length url_long = 134" by code_simp
  have b: "slugify url_long
      = ustr ''devreplicator-'' @ replicate 113 (of_char CHR ''a'') @ ustr ''-''"
    by code_simp
  have c: "slugify (ustr ''https://github.com/git'') = ustr ''devreplicator-''"
    by code_simp
  show ?thesis using a c unfolding b by (simp add: ustr_simps)
qed

subsection \<open>Trailing characters of the URL\<close>

lemma rstrip_suffixes:
  assumes d: "set d \<subseteq> set (ustr ''.git'')" and t: "set t \<subseteq> set (ustr ''/'')"
    and u: "url = [] \<or> last url \<noteq> of_char CHR ''/''"
  shows "rstrip (ustr ''.git'') (rstrip (ustr ''/'') (url @ d @ t))
       = rstrip (ustr ''.git'') (rstrip (ustr ''/'') url)"
proof -
  have "rstrip (ustr ''/'') (url @ d @ t) = rstrip (ustr ''/'') (url @ d)"
    using rstrip_append_chars [OF t, of "url @ d"] by simp
  moreover have "url @ d = [] \<or> last (url @ d) \<notin> set (ustr ''/'')"
  proof (cases "d = []")
    case True
    with u show ?thesis by (auto simp: ustr_simps)
  next
    case False
    then have "last d \<in> set (ustr ''.git'')" using d last_in_set by blast
    with False show ?thesis by (auto simp: ustr_simps)
  qed
  then have "rstrip (ustr ''/'') (url @ d) = url @ d" by (rule rstrip_unchanged)
  moreover have "rstrip (ustr ''.git'') (url @ d) = rstrip (ustr ''.git'') url"
    using d by (rule rstrip_append_chars)
  moreover have "rstrip (ustr ''/'') url = url"
    using u by (intro rstrip_unchanged) (auto simp: ustr_simps)
  ultimately show ?thesis by simp
qed

text \<open>
  C10. Repository-name extraction and tag derivation remove the trailing \<^verbatim>\<open>/\<close> of the
  URL and then every trailing character that is one of \<^verbatim>\<open>.\<close>, \<^verbatim>\<open>g\<close>, \<^verbatim>\<open>i\<close>, \<^verbatim>\<open>t\<close>, not
  only a suffix \<^verbatim>\<open>.git\<close>: a URL that does not end in \<^verbatim>\<open>/\<close> gives the same name and the
  same tag when any characters of \<^verbatim>\<open>.git\<close> and then any number of \<^verbatim>\<open>/\<close> are put behind
  it, and no derived repository name ends in one of these characters. So the
  repository \<^verbatim>\<open>blog\<close> gets the name \<^verbatim>\<open>blo\<close> and the tag \<^verbatim>\<open>devreplicator-user-blo\<close>.
\<close>

theorem trailing_git_characters_dropped:
  "(set d \<subseteq> set (ustr ''.git'') \<and> set t \<subseteq> set (ustr ''/'')
      \<and> (url = [] \<or> last url \<noteq> of_char CHR ''/'')
      \<longrightarrow> extract_repo_name (url @ d @ t) = extract_repo_name url
          \<and> slugify (url @ d @ t) = slugify url)
   \<and> last (extract_repo_name url) \<notin> set (ustr ''.git'')
   \<and> extract_repo_name (ustr ''https://github.com/user/blog'') = ustr ''blo''
   \<and> slugify (ustr ''https://github.com/user/blog'') = ustr ''devreplicator-user-blo''"
proof -
  have 1: "set d \<subseteq> set (ustr ''.git'') \<and> set t \<subseteq> set (ustr ''/'')
      \<and> (url = [] \<or> last url \<noteq> of_char CHR ''/'')
      \<longrightarrow> extract_repo_name (url @ d @ t) = extract_repo_name url
          \<and> slugify (url @ d @ t) = slugify url"
    by (simp add: extract_repo_name_def slugify_def rstrip_suffixes)
  have 2: "last (extract_repo_name url) \<notin> set (ustr ''.git'')"
  proof -
    let ?u = "rstrip (ustr ''.git'') (rstrip (ustr ''/'') url)"
    let ?n = "last (split (ustr ''/'') ?u)"
    show ?thesis
    proof (cases "?n = []")
      case True
      then show ?thesis by (simp add: extract_repo_name_def ustr_simps)
    next
      case False
      then have l: "last ?n = last ?u"
        using split_from_last [of "ustr ''/''" "[]" ?u] by (simp add: split_def)
      have "?u \<noteq> []"
      proof
        assume "?u = []"
        then have "?n = []" by (simp add: split_def)
        with False show False by simp
      qed
      then have "last ?u \<notin> set (ustr ''.git'')" by (rule rstrip_last)
      with l False show ?thesis by (simp add: extract_repo_name_def Let_def)
    qed
  qed
  have 3: "extract_repo_name (ustr ''https://github.com/user/blog'') = ustr ''blo''"
    by code_simp
  have 4: "slugify (ustr ''https://github.com/user/blog'') = ustr ''devreplicator-user-blo''"
    by code_simp
  show ?thesis using 1 2 3 4 by blast
qed

theorem trailing_git_characters_dropped_witness:
  "extract_repo_name (ustr ''https://github.com/user/blog.git/'') = ustr ''blo''
   \<and> slugify (ustr ''https://github.com/user/blog.git/'') = ustr ''devreplicator-user-blo''"
proof -
  have a: "set (ustr ''g.git'') \<subseteq> set (ustr ''.git'') \<and> set (ustr ''/'') \<subseteq> set (ustr ''/'')
      \<and> (ustr ''https://github.com/user/blo'' = []
           \<or> last (ustr ''https://github.com/user/blo'') \<noteq> of_char CHR ''/'')"
    by (simp add: ustr_simps)
  have b: "ustr ''https://github.com/user/blo'' @ ustr ''g.git'' @ ustr ''/''
      = ustr ''https://github.com/user/blog.git/''"
    by (simp add: ustr_simps)
  have c: "extract_repo_name (ustr ''https://github.com/user/blo'') = ustr ''blo''"
    by code_simp
  have d: "slugify (ustr ''https://github.com/user/blo'') = ustr ''devreplicator-user-blo''"
    by code_simp
  from a trailing_git_characters_dropped
         [of "ustr ''g.git''" "ustr ''/''" "ustr ''https://github.com/user/blo''"]
  have "extract_repo_name (ustr ''https://github.com/user/blo'' @ ustr ''g.git'' @ ustr ''/'')
          = extract_repo_name (ustr ''https://github.com/user/blo'')
      \<and> slugify (ustr ''https://github.com/user/blo'' @ ustr ''g.git'' @ ustr ''/'')
          = slugify (ustr ''https://github.com/user/blo'')"
    by blast
  then show ?thesis unfolding b c d .
qed

subsection \<open>The import scan\<close>

lemma ident_start_char: "ident_start c \<Longrightarrow> ident_char c"
  by (simp add: ident_char_def)

lemma match_identifier_token: "match_identifier t = Some pkg \<Longrightarrow> module_token pkg"
proof (cases t)
  case Nil
  then show "match_identifier t = Some pkg \<Longrightarrow> module_token pkg"
    by (simp add: match_identifier_def)
next
  case (Cons c r)
  assume "match_identifier t = Some pkg"
  with Cons have c: "ident_start c" and p: "pkg = takeWhile ident_char (c # r)"
    by (simp_all add: match_identifier_def split: if_splits)
  from c p have "pkg = c # takeWhile ident_char r" by (simp add: ident_start_char)
  moreover have "list_all ident_char (takeWhile ident_char r)"
    by (auto simp: list_all_iff dest: set_takeWhileD)
  ultimately show "module_token pkg" using c by (simp add: module_token_def)
qed

lemma import_match_token: "import_match line = Some pkg \<Longrightarrow> module_token pkg"
proof -
  assume "import_match line = Some pkg"
  then have "\<exists>t. match_identifier t = Some pkg"
    by (auto simp: import_match_def Let_def split: option.splits if_splits)
  then show ?thesis using match_identifier_token by blast
qed

lemma module_token_not_dot: "module_token pkg \<Longrightarrow> hd pkg \<noteq> of_char CHR ''.''"
  by (cases pkg) (auto simp: module_token_def ident_start_def in_range_def)

lemma set_add_set: "set (set_add pkg found) = insert pkg (set found)"
  by (auto simp: set_add_def)

lemma set_add_distinct: "distinct found \<Longrightarrow> distinct (set_add pkg found)"
  by (simp add: set_add_def)

lemma scan_lines_set:
  "set (scan_lines ls found)
     = set found \<union> {pkg. \<exists>line\<in>set ls. import_match line = Some pkg
                          \<and> pkg \<notin> set stdlib_prefixes}"
proof (induction ls arbitrary: found)
  case Nil
  then show ?case by simp
next
  case (Cons line rest)
  show ?case
  proof (cases "import_match line")
    case None
    then show ?thesis using Cons by auto
  next
    case (Some pkg)
    then show ?thesis using Cons by (auto simp: set_add_set)
  qed
qed

lemma scan_lines_distinct: "distinct found \<Longrightarrow> distinct (scan_lines ls found)"
  by (induction ls arbitrary: found) (auto simp: set_add_distinct split: option.splits)

lemma scan_files_distinct: "distinct found \<Longrightarrow> distinct (scan_files fs found)"
  by (induction fs found rule: scan_files.induct) (simp_all add: scan_lines_distinct)

lemma scan_files_set:
  "set (scan_files fs found)
     = set found \<union> {pkg. \<exists>(fpath, text)\<in>set fs. \<exists>t. text = Some t
           \<and> (\<exists>line\<in>set (splitlines t). import_match line = Some pkg)
           \<and> pkg \<notin> set stdlib_prefixes}"
proof (induction fs found rule: scan_files.induct)
  case (1 found)
  then show ?case by simp
next
  case (2 fpath rest found)
  then show ?case by auto
next
  case (3 fpath body rest found)
  then show ?case by (auto simp: scan_lines_set)
qed

text \<open>
  C5. Whatever the files are, the result of the import scan holds every name once,
  every name in it is a module token matching \<^verbatim>\<open>[a-zA-Z_][a-zA-Z0-9_]*\<close>, so none begins
  with a dot, and none belongs to the standard-library list. A name is in the result
  exactly when it is not in that list and some line of some readable file matches
  the import pattern with that name.
\<close>

theorem scan_python_imports_tokens:
  "distinct (scan_python_imports py_files)
   \<and> (\<forall>pkg\<in>set (scan_python_imports py_files).
         module_token pkg \<and> hd pkg \<noteq> of_char CHR ''.'' \<and> pkg \<notin> set stdlib_prefixes)
   \<and> (pkg \<in> set (scan_python_imports py_files) \<longleftrightarrow>
        pkg \<notin> set stdlib_prefixes
        \<and> (\<exists>(fpath, text)\<in>set py_files. \<exists>t. text = Some t
              \<and> (\<exists>line\<in>set (splitlines t). import_match line = Some pkg)))"
proof -
  have 1: "distinct (scan_python_imports py_files)"
    by (simp add: scan_python_imports_def scan_files_distinct)
  have 3: "pkg \<in> set (scan_python_imports py_files) \<longleftrightarrow>
        pkg \<notin> set stdlib_prefixes
        \<and> (\<exists>(fpath, text)\<in>set py_files. \<exists>t. text = Some t
              \<and> (\<exists>line\<in>set (splitlines t). import_match line = Some pkg))" for pkg
    unfolding scan_python_imports_def scan_files_set by auto
  have 2: "\<forall>pkg\<in>set (scan_python_imports py_files).
         module_token pkg \<and> hd pkg \<noteq> of_char CHR ''.'' \<and> pkg \<notin> set stdlib_prefixes"
    using 3 import_match_token module_token_not_dot by blast
  show ?thesis using 1 2 3 by blast
qed

theorem scan_python_imports_tokens_witness:
  "scan_python_imports py_sources = [ustr ''numpy'']
   \<and> module_token (ustr ''numpy'') \<and> ustr ''numpy'' \<notin> set stdlib_prefixes"
proof -
  have l1: "splitlines (ustr ''import numpy'' @ 10 # ustr ''import os'')
      = [ustr ''import numpy'', ustr ''import os'']"
    by (simp add: splitlines_def is_linebreak_def ustr_simps)
  have l2: "splitlines (ustr '' from numpy import x'') = [ustr '' from numpy import x'']"
    by (simp add: splitlines_def is_linebreak_def ustr_simps)
  have m1: "import_match (ustr ''import numpy'') = Some (ustr ''numpy'')"
    by (simp add: import_match_def match_keyword_def match_identifier_def startswith_def
        is_space_def ident_start_def ident_char_def in_range_def ustr_simps)
  have m2: "import_match (ustr ''import os'') = Some (ustr ''os'')"
    by (simp add: import_match_def match_keyword_def match_identifier_def startswith_def
        is_space_def ident_start_def ident_char_def in_range_def ustr_simps)
  have m3: "import_match (ustr '' from numpy import x'') = Some (ustr ''numpy'')"
    by (simp add: import_match_def match_keyword_def match_identifier_def startswith_def
        is_space_def ident_start_def ident_char_def in_range_def ustr_simps)
  have d1: "ustr ''os'' \<in> set stdlib_prefixes"
    by (simp add: stdlib_prefixes_def)
  have d2: "ustr ''numpy'' \<notin> set stdlib_prefixes"
    by (simp add: stdlib_prefixes_def ustr_simps)
  have a: "scan_python_imports py_sources = [ustr ''numpy'']"
    by (simp add: scan_python_imports_def py_sources_def l1 l2 m1 m2 m3 d1 d2 set_add_def)
  from scan_python_imports_tokens [of py_sources] a
  have "\<forall>pkg\<in>set [ustr ''numpy''].
         module_token pkg \<and> hd pkg \<noteq> of_char CHR ''.'' \<and> pkg \<notin> set stdlib_prefixes"
    by simp
  then show ?thesis using a by simp
qed

end
